theory Spec2Isabelle
  imports Complex_Main "HOL-Library.AList"
begin

section \<open>The server registry of server/server.js\<close>

text \<open>
  The WebSocket server keeps three global maps (\<open>players\<close>, \<open>wsToPlayerId\<close>,
  \<open>lastUpdateTime\<close>), one closure variable \<open>playerId\<close> per connection, the batching
  queue \<open>movementUpdates\<close> and its timer. The model passes all of them in one record and
  adds the list of socket writes (\<open>sent\<close>) the handlers request.

  Conventions of the embedding:
  \<^item> a connection object is a natural number; an object is accepted at most once;
  \<^item> \<open>sent\<close> records every call of \<open>send\<close> with its socket, in call order; the
    handlers call \<open>ws.send\<close> without looking at \<open>readyState\<close>, \<open>broadcast\<close> and the
    timer callback only on sockets that are \<open>OPEN\<close>;
  \<^item> the JavaScript \<open>Map\<close> objects whose iteration order is observable (\<open>players\<close>,
    \<open>movementUpdates\<close>) and the set \<open>wss.clients\<close> are lists in insertion order;
  \<^item> a coordinate is a JavaScript number: a double, taken as a real without rounding,
    one of the infinities (which \<open>JSON.parse\<close> yields for a literal beyond the range of
    doubles), or NaN. In a message, \<open>NaN\<close> also stands for a coordinate that is missing
    or is no number and that the arithmetic of the handler turns into NaN
    (\<open>pos: {}\<close>, \<open>dx: "abc"\<close>); values that JavaScript converts to another number
    (numeric strings, \<open>null\<close>, booleans) are outside the model;
  \<^item> \<open>Date.now()\<close> and the two fragments \<open>Math.random().toString(36).substr(2, 9)\<close>
    are read from the environment and are inputs of every message event;
  \<^item> messages are typed as the client's \<open>WebSocketMessage\<close> declares them; a field the
    server tests for absence is an option, and a message that does not parse or has an
    unknown type is \<open>other_message\<close>.
\<close>

subsection \<open>Data\<close>

type_synonym conn = nat
datatype number = Num real | PosInf | NegInf | NaN

type_synonym point = "number \<times> number"

record player =
  id' :: string
  name :: string
  pos :: point
  direction :: string
  isMoving :: bool
  color :: "string option"

text \<open>The \<open>player\<close> object of a \<open>player_join\<close> or \<open>player_update\<close> request.\<close>

record player_request =
  req_id :: "string option"
  req_name :: "string option"
  req_pos :: "point option"
  req_direction :: "string option"
  req_isMoving :: "bool option"
  req_color :: "string option"

record move_request =
  mv_playerId :: "string option"
  mv_pos :: "point option"
  mv_dx :: "number option"
  mv_dy :: "number option"
  mv_direction :: string
  mv_isMoving :: bool
  mv_seq :: "nat option"

datatype client_message =
    player_join "player_request option"
  | player_move move_request
  | chat string
  | player_update "player_request option"
  | other_message

datatype server_message =
    player_id_assigned string player
  | player_join_out player
  | players_sync "player list"
  | player_move_out string point string bool "nat option" nat
  | chat_out string string string
  | player_update_out player
  | player_leave string
  | batch "server_message list"

datatype ready_state = CONNECTING | OPEN | CLOSING | CLOSED

record env =
  now :: nat
  rand1 :: string
  rand2 :: string

record server_state =
  players :: "(string \<times> player) list"
  wsToPlayerId :: "conn \<Rightarrow> string option"
  lastUpdateTime :: "string \<Rightarrow> nat option"
  playerId :: "conn \<Rightarrow> string option"
  accepted :: "conn set"
  clients :: "conn list"
  readyState :: "conn \<Rightarrow> ready_state"
  movementUpdates :: "(conn \<times> server_message list) list"
  broadcastTimer :: bool
  sent :: "(conn \<times> server_message) list"

datatype event =
    Connect conn
  | Message conn env client_message
  | Closing conn
  | Close conn
  | Tick

subsection \<open>Constants and JavaScript truthiness\<close>

definition MAP_WIDTH :: real where
  "MAP_WIDTH = 1536"

definition MAP_HEIGHT :: real where
  "MAP_HEIGHT = 1024"

definition UPDATE_RATE_LIMIT :: int where
  "UPDATE_RATE_LIMIT = 16"

text \<open>A string value is truthy when it is defined and not empty.\<close>

definition truthy :: "string option \<Rightarrow> bool" where
  "truthy v = (case v of None \<Rightarrow> False | Some s \<Rightarrow> s \<noteq> [])"

text \<open>\<open>a || b\<close> on possibly undefined strings, and \<open>a || 'literal'\<close>.\<close>

definition js_or :: "string option \<Rightarrow> string option \<Rightarrow> string option" where
  "js_or a b = (if truthy a then a else b)"

definition str_or :: "string option \<Rightarrow> string \<Rightarrow> string" where
  "str_or a d = (case a of None \<Rightarrow> d | Some s \<Rightarrow> if s \<noteq> [] then s else d)"

subsection \<open>Arithmetic on JavaScript numbers\<close>

text \<open>\<open>a <= b\<close>: false as soon as one side is NaN.\<close>

fun js_le :: "number \<Rightarrow> number \<Rightarrow> bool" where
  "js_le NaN b = False"
| "js_le a NaN = False"
| "js_le NegInf b = True"
| "js_le a PosInf = True"
| "js_le (Num a) (Num b) = (a \<le> b)"
| "js_le a b = False"

definition Math_min :: "number \<Rightarrow> number \<Rightarrow> number" where
  "Math_min a b = (if a = NaN \<or> b = NaN then NaN else if js_le a b then a else b)"

definition Math_max :: "number \<Rightarrow> number \<Rightarrow> number" where
  "Math_max a b = (if a = NaN \<or> b = NaN then NaN else if js_le a b then b else a)"

text \<open>\<open>a + b\<close> on numbers.\<close>

fun js_add :: "number \<Rightarrow> number \<Rightarrow> number" where
  "js_add NaN b = NaN"
| "js_add a NaN = NaN"
| "js_add (Num a) (Num b) = Num (a + b)"
| "js_add PosInf NegInf = NaN"
| "js_add NegInf PosInf = NaN"
| "js_add PosInf b = PosInf"
| "js_add a PosInf = PosInf"
| "js_add NegInf b = NegInf"
| "js_add a NegInf = NegInf"

subsection \<open>generatePlayerId\<close>

definition digit_char :: "nat \<Rightarrow> char" where
  "digit_char d =
     (if d = 0 then CHR ''0'' else if d = 1 then CHR ''1'' else if d = 2 then CHR ''2''
      else if d = 3 then CHR ''3'' else if d = 4 then CHR ''4'' else if d = 5 then CHR ''5''
      else if d = 6 then CHR ''6'' else if d = 7 then CHR ''7'' else if d = 8 then CHR ''8''
      else CHR ''9'')"

text \<open>The decimal rendering of a non-negative integer in a template string.\<close>

fun show_nat :: "nat \<Rightarrow> string" where
  "show_nat n = (if n < 10 then [digit_char n] else show_nat (n div 10) @ [digit_char (n mod 10)])"

declare show_nat.simps [simp del]

definition generatePlayerId :: "env \<Rightarrow> string" where
  "generatePlayerId e = ''player_'' @ show_nat (now e) @ ''_'' @ rand1 e @ ''_'' @ rand2 e"

subsection \<open>broadcast and the batching timer\<close>

fun is_player_move :: "server_message \<Rightarrow> bool" where
  "is_player_move (player_move_out i p d m q t) = True"
| "is_player_move _ = False"

definition open_others :: "server_state \<Rightarrow> conn \<Rightarrow> conn list" where
  "open_others s excludeWs =
     filter (\<lambda>client. client \<noteq> excludeWs \<and> readyState s client = OPEN) (clients s)"

definition enqueue ::
  "server_message \<Rightarrow> (conn \<times> server_message list) list \<Rightarrow> conn \<Rightarrow> (conn \<times> server_message list) list"
where
  "enqueue message q client =
     AList.update client ((case map_of q client of None \<Rightarrow> [] | Some updates \<Rightarrow> updates) @ [message]) q"

definition broadcast :: "server_message \<Rightarrow> conn \<Rightarrow> server_state \<Rightarrow> server_state" where
  "broadcast message excludeWs s =
     (if is_player_move message then
        s\<lparr>movementUpdates := foldl (enqueue message) (movementUpdates s) (open_others s excludeWs),
          broadcastTimer := True\<rparr>
      else
        s\<lparr>sent := sent s @ map (\<lambda>client. (client, message)) (open_others s excludeWs)\<rparr>)"

text \<open>One entry of \<open>movementUpdates\<close> in the timer callback: what is written, what is left.\<close>

definition flush_sends ::
  "(conn \<Rightarrow> ready_state) \<Rightarrow> conn \<times> server_message list \<Rightarrow> (conn \<times> server_message) list"
where
  "flush_sends rs entry =
     (case entry of (client, updates) \<Rightarrow>
        if rs client = OPEN \<and> updates \<noteq> [] then
          (case updates of [u] \<Rightarrow> [(client, u)] | _ \<Rightarrow> [(client, batch updates)])
        else [])"

definition flush_queue ::
  "(conn \<Rightarrow> ready_state) \<Rightarrow> conn \<times> server_message list \<Rightarrow> conn \<times> server_message list"
where
  "flush_queue rs entry =
     (case entry of (client, updates) \<Rightarrow>
        if rs client = OPEN \<and> updates \<noteq> [] then (client, []) else (client, updates))"

definition tick :: "server_state \<Rightarrow> server_state" where
  "tick s =
     (if broadcastTimer s then
        let q = map (flush_queue (readyState s)) (movementUpdates s) in
        s\<lparr>sent := sent s @ concat (map (flush_sends (readyState s)) (movementUpdates s)),
          movementUpdates := q,
          broadcastTimer := list_ex (\<lambda>entry. snd entry \<noteq> []) q\<rparr>
      else s)"

subsection \<open>The message handlers\<close>

definition playerData :: "string \<Rightarrow> player_request \<Rightarrow> player" where
  "playerData i r =
     \<lparr>id' = i,
      name = str_or (req_name r) ''Player'',
      pos = (case req_pos r of
               None \<Rightarrow> (Num (MAP_WIDTH / 2), Num (MAP_HEIGHT / 2))
             | Some p \<Rightarrow> p),
      direction = str_or (req_direction r) ''front'',
      isMoving = (case req_isMoving r of None \<Rightarrow> False | Some b \<Rightarrow> b),
      color = (case req_color r of None \<Rightarrow> None | Some c \<Rightarrow> if c \<noteq> [] then Some c else None)\<rparr>"

text \<open>
  \<open>case 'player_join'\<close>. The guard \<open>if (!playerId)\<close> covers the generation of the id
  only. A request without \<open>player\<close> throws at \<open>msg.player.name\<close>, after the id was
  assigned; the \<open>catch\<close> logs and the handler returns.
\<close>

definition on_player_join :: "conn \<Rightarrow> env \<Rightarrow> player_request option \<Rightarrow> server_state \<Rightarrow> server_state" where
  "on_player_join ws e mp s =
     (let i = str_or (playerId s ws) (generatePlayerId e);
          s1 = (if truthy (playerId s ws) then s
                else s\<lparr>wsToPlayerId := (wsToPlayerId s)(ws \<mapsto> i),
                       playerId := (playerId s)(ws \<mapsto> i)\<rparr>)
      in case mp of
           None \<Rightarrow> s1
         | Some r \<Rightarrow>
             let pd = playerData i r;
                 s2 = s1\<lparr>players := AList.update i pd (players s1),
                         sent := sent s1 @ [(ws, player_id_assigned i pd)]\<rparr>;
                 s3 = broadcast (player_join_out pd) ws s2;
                 otherPlayers = filter (\<lambda>p. id' p \<noteq> i) (map snd (players s3))
             in s3\<lparr>sent := sent s3 @ [(ws, players_sync otherPlayers)]\<rparr>)"

definition clamp_x :: "number \<Rightarrow> number" where
  "clamp_x x = Math_max (Num 0) (Math_min (Num MAP_WIDTH) x)"

definition clamp_y :: "number \<Rightarrow> number" where
  "clamp_y y = Math_max (Num 0) (Math_min (Num MAP_HEIGHT) y)"

text \<open>\<open>validPos\<close>: the delta form wins when both \<open>dx\<close> and \<open>dy\<close> are defined.\<close>

definition validPos :: "player \<Rightarrow> move_request \<Rightarrow> point option" where
  "validPos currentPlayer m =
     (if mv_dx m \<noteq> None \<and> mv_dy m \<noteq> None then
        (case (mv_dx m, mv_dy m) of
           (Some dx, Some dy) \<Rightarrow>
             Some (clamp_x (js_add (fst (pos currentPlayer)) dx),
                   clamp_y (js_add (snd (pos currentPlayer)) dy))
         | _ \<Rightarrow> None)
      else
        (case mv_pos m of
           Some p \<Rightarrow> Some (clamp_x (fst p), clamp_y (snd p))
         | None \<Rightarrow> None))"

definition on_player_move :: "conn \<Rightarrow> env \<Rightarrow> move_request \<Rightarrow> server_state \<Rightarrow> server_state" where
  "on_player_move ws e m s =
     (case js_or (playerId s ws) (wsToPlayerId s ws) of
        None \<Rightarrow> s
      | Some movePlayerId \<Rightarrow>
          (case (if movePlayerId \<noteq> [] then map_of (players s) movePlayerId else None) of
             None \<Rightarrow> s
           | Some currentPlayer \<Rightarrow>
               if truthy (mv_playerId m) \<and> mv_playerId m \<noteq> Some movePlayerId then s
               else
                 let lastUpdate = (case lastUpdateTime s movePlayerId of None \<Rightarrow> 0 | Some t \<Rightarrow> t) in
                 if int (now e) - int lastUpdate < UPDATE_RATE_LIMIT then s
                 else
                   let s1 = s\<lparr>lastUpdateTime := (lastUpdateTime s)(movePlayerId \<mapsto> now e)\<rparr> in
                   (case validPos currentPlayer m of
                      None \<Rightarrow> s1
                    | Some p \<Rightarrow>
                        let updatedPlayer =
                              currentPlayer\<lparr>pos := p, direction := mv_direction m,
                                            isMoving := mv_isMoving m\<rparr>;
                            s2 = s1\<lparr>players := AList.update movePlayerId updatedPlayer (players s1)\<rparr>
                        in broadcast
                             (player_move_out movePlayerId p (mv_direction m) (mv_isMoving m)
                                (mv_seq m) (now e))
                             ws s2)))"

definition on_chat :: "conn \<Rightarrow> string \<Rightarrow> server_state \<Rightarrow> server_state" where
  "on_chat ws message s =
     (case js_or (playerId s ws) (wsToPlayerId s ws) of
        None \<Rightarrow> s
      | Some chatPlayerId \<Rightarrow>
          (case (if chatPlayerId \<noteq> [] then map_of (players s) chatPlayerId else None) of
             None \<Rightarrow> s
           | Some chatPlayer \<Rightarrow>
               broadcast (chat_out chatPlayerId (name chatPlayer) message) ws s))"

text \<open>
  \<open>case 'player_update'\<close>. A request without \<open>player\<close> throws at \<open>msg.player.id\<close>
  before anything is written.
\<close>

definition on_player_update :: "conn \<Rightarrow> player_request option \<Rightarrow> server_state \<Rightarrow> server_state" where
  "on_player_update ws mp s =
     (case js_or (playerId s ws) (wsToPlayerId s ws) of
        None \<Rightarrow> s
      | Some updatePlayerId \<Rightarrow>
          (case (if updatePlayerId \<noteq> [] then map_of (players s) updatePlayerId else None) of
             None \<Rightarrow> s
           | Some currentPlayer \<Rightarrow>
               (case mp of
                  None \<Rightarrow> s
                | Some r \<Rightarrow>
                    if truthy (req_id r) \<and> req_id r \<noteq> Some updatePlayerId then s
                    else
                      let updatedPlayer =
                            currentPlayer\<lparr>
                              name := str_or (req_name r) (name currentPlayer),
                              color := (case req_color r of None \<Rightarrow> color currentPlayer
                                        | Some c \<Rightarrow> Some c),
                              direction := str_or (req_direction r) (direction currentPlayer),
                              isMoving := (case req_isMoving r of None \<Rightarrow> isMoving currentPlayer
                                           | Some b \<Rightarrow> b)\<rparr>;
                          s1 = s\<lparr>players := AList.update updatePlayerId updatedPlayer (players s)\<rparr>
                      in broadcast (player_update_out updatedPlayer) ws s1)))"

fun on_message :: "conn \<Rightarrow> env \<Rightarrow> client_message \<Rightarrow> server_state \<Rightarrow> server_state" where
  "on_message ws e (player_join mp) s = on_player_join ws e mp s"
| "on_message ws e (player_move m) s = on_player_move ws e m s"
| "on_message ws e (chat message) s = on_chat ws message s"
| "on_message ws e (player_update mp) s = on_player_update ws mp s"
| "on_message ws e other_message s = s"

text \<open>
  \<open>ws.on('close')\<close>. The library has taken the socket out of \<open>wss.clients\<close> and set it
  \<open>CLOSED\<close> before the handler runs.
\<close>

definition on_close :: "conn \<Rightarrow> server_state \<Rightarrow> server_state" where
  "on_close ws s =
     (let s0 = s\<lparr>clients := removeAll ws (clients s), readyState := (readyState s)(ws := CLOSED)\<rparr>
      in case js_or (playerId s ws) (wsToPlayerId s ws) of
           None \<Rightarrow> s0
         | Some leavingPlayerId \<Rightarrow>
             if leavingPlayerId \<noteq> [] then
               broadcast (player_leave leavingPlayerId) ws
                 (s0\<lparr>players := AList.delete leavingPlayerId (players s0),
                     wsToPlayerId := (wsToPlayerId s0)(ws := None)\<rparr>)
             else s0)"

subsection \<open>Events and runs\<close>

fun step :: "server_state \<Rightarrow> event \<Rightarrow> server_state" where
  "step s (Connect ws) =
     (if ws \<in> accepted s then s
      else s\<lparr>accepted := insert ws (accepted s), clients := clients s @ [ws],
             readyState := (readyState s)(ws := OPEN), playerId := (playerId s)(ws := None)\<rparr>)"
| "step s (Message ws e m) = (if ws \<in> set (clients s) then on_message ws e m s else s)"
| "step s (Closing ws) =
     (if ws \<in> set (clients s) then s\<lparr>readyState := (readyState s)(ws := CLOSING)\<rparr> else s)"
| "step s (Close ws) = (if ws \<in> set (clients s) then on_close ws s else s)"
| "step s Tick = tick s"

definition run :: "server_state \<Rightarrow> event list \<Rightarrow> server_state" where
  "run s es = foldl step s es"

definition init :: server_state where
  "init =
     \<lparr>players = [], wsToPlayerId = (\<lambda>_. None), lastUpdateTime = (\<lambda>_. None),
      playerId = (\<lambda>_. None), accepted = {}, clients = [], readyState = (\<lambda>_. CLOSED),
      movementUpdates = [], broadcastTimer = False, sent = []\<rparr>"

section \<open>The client transport: class GameWebSocket\<close>

text \<open>
  The fields \<open>ws\<close> and \<open>reconnectAttempts\<close> of the class, and the delays handed to
  \<open>setTimeout\<close> in the order they were scheduled. \<open>ws_c\<close> is \<open>None\<close> for \<open>null\<close>
  and otherwise the \<open>readyState\<close> of the socket. Whether \<open>new WebSocket(url)\<close> throws
  is an input of the events that call \<open>connect\<close>.
\<close>

record client_state =
  ws_c :: "ready_state option"
  reconnectAttempts :: nat
  timeouts :: "nat list"

definition maxReconnectAttempts :: nat where
  "maxReconnectAttempts = 5"

definition reconnectDelay :: nat where
  "reconnectDelay = 1000"

definition attemptReconnect :: "client_state \<Rightarrow> client_state" where
  "attemptReconnect cl =
     (if reconnectAttempts cl < maxReconnectAttempts then
        let n = reconnectAttempts cl + 1 in
        cl\<lparr>reconnectAttempts := n, timeouts := timeouts cl @ [reconnectDelay * n]\<rparr>
      else cl)"

definition connect :: "bool \<Rightarrow> client_state \<Rightarrow> client_state" where
  "connect created cl =
     (if ws_c cl = Some CONNECTING \<or> ws_c cl = Some OPEN then cl
      else if created then cl\<lparr>ws_c := Some CONNECTING\<rparr>
      else attemptReconnect (cl\<lparr>ws_c := None\<rparr>))"

definition onopen :: "client_state \<Rightarrow> client_state" where
  "onopen cl =
     cl\<lparr>ws_c := (case ws_c cl of None \<Rightarrow> None | Some r \<Rightarrow> Some OPEN), reconnectAttempts := 0\<rparr>"

definition onclose :: "nat \<Rightarrow> client_state \<Rightarrow> client_state" where
  "onclose code cl =
     (let cl1 = cl\<lparr>ws_c := None\<rparr> in
      if code \<noteq> 1000 then attemptReconnect cl1 else cl1)"

text \<open>The callback of \<open>setTimeout\<close> in \<open>attemptReconnect\<close>.\<close>

definition on_timeout :: "bool \<Rightarrow> client_state \<Rightarrow> client_state" where
  "on_timeout created cl =
     (if ws_c cl = None \<or> ws_c cl = Some CLOSED then connect created cl else cl)"

definition disconnect :: "client_state \<Rightarrow> client_state" where
  "disconnect cl = cl\<lparr>ws_c := None\<rparr>"

datatype client_event =
    CallConnect bool
  | OnOpen
  | OnClose nat
  | Timeout bool
  | CallDisconnect

fun client_step :: "client_state \<Rightarrow> client_event \<Rightarrow> client_state" where
  "client_step cl (CallConnect created) = connect created cl"
| "client_step cl OnOpen = onopen cl"
| "client_step cl (OnClose code) = onclose code cl"
| "client_step cl (Timeout created) = on_timeout created cl"
| "client_step cl CallDisconnect = disconnect cl"

definition client_run :: "client_state \<Rightarrow> client_event list \<Rightarrow> client_state" where
  "client_run cl es = foldl client_step cl es"

definition client_init :: client_state where
  "client_init = \<lparr>ws_c = None, reconnectAttempts = 0, timeouts = []\<rparr>"

section \<open>Notions used by the properties\<close>

text \<open>
  The delays scheduled so far are the base delay times 1, 2, ... up to the attempt
  counter.
\<close>

definition delays_ok :: "client_state \<Rightarrow> bool" where
  "delays_ok cl \<longleftrightarrow>
     timeouts cl = map (\<lambda>k. reconnectDelay * k) [1..<Suc (reconnectAttempts cl)]"

text \<open>Consistency of the registries, kept by every event.\<close>

definition wf :: "server_state \<Rightarrow> bool" where
  "wf s \<longleftrightarrow>
     (\<forall>c i. wsToPlayerId s c = Some i \<longrightarrow> playerId s c = Some i) \<and>
     (\<forall>c i. playerId s c = Some i \<longrightarrow> i \<noteq> []) \<and>
     (\<forall>kp\<in>set (players s). id' (snd kp) = fst kp) \<and>
     distinct (map fst (movementUpdates s)) \<and>
     (\<forall>c. c \<notin> accepted s \<longrightarrow> wsToPlayerId s c = None) \<and>
     set (clients s) \<subseteq> accepted s \<and> distinct (clients s)"







text \<open>
  The guards a \<open>player_move\<close> of connection \<open>ws\<close> passes before the position of player
  \<open>i\<close> is written: the connection is live and owns \<open>i\<close>, \<open>i\<close> is registered, the
  message names no other player, the rate limit has expired and a position is given.
\<close>

definition accepts_move :: "server_state \<Rightarrow> conn \<Rightarrow> env \<Rightarrow> move_request \<Rightarrow> string \<Rightarrow> bool" where
  "accepts_move s ws e m i \<longleftrightarrow>
     ws \<in> set (clients s) \<and>
     js_or (playerId s ws) (wsToPlayerId s ws) = Some i \<and> i \<noteq> [] \<and>
     (truthy (mv_playerId m) \<longrightarrow> mv_playerId m = Some i) \<and>
     UPDATE_RATE_LIMIT \<le>
       int (now e) - int (case lastUpdateTime s i of None \<Rightarrow> 0 | Some t \<Rightarrow> t) \<and>
     (case map_of (players s) i of
        None \<Rightarrow> False
      | Some currentPlayer \<Rightarrow> validPos currentPlayer m \<noteq> None)"

text \<open>
  The number of events of a run, started in \<open>s\<close>, that are accepted movement messages
  of player \<open>i\<close>.
\<close>

fun applies :: "server_state \<Rightarrow> event \<Rightarrow> string \<Rightarrow> bool" where
  "applies s (Message ws e (player_move m)) i = accepts_move s ws e m i"
| "applies s _ i = False"

fun moves_applied :: "server_state \<Rightarrow> event list \<Rightarrow> string \<Rightarrow> nat" where
  "moves_applied s [] i = 0"
| "moves_applied s (ev # es) i = (if applies s ev i then 1 else 0) + moves_applied (step s ev) es i"

text \<open>A \<open>player_move\<close> event arrives less than the minimum interval after time \<open>t\<close>.\<close>

fun in_window :: "nat \<Rightarrow> event \<Rightarrow> bool" where
  "in_window t (Message ws e (player_move m)) = (int (now e) - int t < UPDATE_RATE_LIMIT)"
| "in_window t _ = True"

text \<open>The pending movement messages of a client (\<open>[]\<close> when it has no entry).\<close>

definition pending :: "server_state \<Rightarrow> conn \<Rightarrow> server_message list" where
  "pending s client = (case map_of (movementUpdates s) client of None \<Rightarrow> [] | Some updates \<Rightarrow> updates)"

text \<open>The socket writes to one client among the writes added between two states.\<close>

definition writes_to :: "conn \<Rightarrow> server_state \<Rightarrow> server_state \<Rightarrow> (conn \<times> server_message) list" where
  "writes_to client s s' = filter (\<lambda>w. fst w = client) (drop (length (sent s)) (sent s'))"






text \<open>
  What \<open>Math.random().toString(36).substr(2, 9)\<close> can return: at most nine digits of
  base 36.
\<close>

definition base36 :: "string \<Rightarrow> bool" where
  "base36 r \<longleftrightarrow> length r \<le> 9 \<and> set r \<subseteq> set ''0123456789abcdefghijklmnopqrstuvwxyz''"

definition fragments_ok :: "env \<Rightarrow> bool" where
  "fragments_ok e \<longleftrightarrow> base36 (rand1 e) \<and> base36 (rand2 e)"

subsection \<open>Concrete inputs\<close>

definition ex_env :: "nat \<Rightarrow> env" where
  "ex_env t = \<lparr>now = t, rand1 = ''k3j9x0a1b'', rand2 = ''q7w5e2r8t''\<rparr>"

definition ex_request :: "string \<Rightarrow> (real \<times> real) option \<Rightarrow> player_request" where
  "ex_request n p =
     \<lparr>req_id = Some ''local'', req_name = Some n,
      req_pos = (case p of None \<Rightarrow> None | Some q \<Rightarrow> Some (Num (fst q), Num (snd q))),
      req_direction = None, req_isMoving = None, req_color = None\<rparr>"

definition ex_move :: "string option \<Rightarrow> real \<times> real \<Rightarrow> move_request" where
  "ex_move i p =
     \<lparr>mv_playerId = i, mv_pos = Some (Num (fst p), Num (snd p)), mv_dx = None, mv_dy = None,
      mv_direction = ''right'', mv_isMoving = True, mv_seq = Some 1\<rparr>"

definition ex_delta :: "real \<Rightarrow> real \<Rightarrow> move_request" where
  "ex_delta dx dy =
     \<lparr>mv_playerId = None, mv_pos = None, mv_dx = Some (Num dx), mv_dy = Some (Num dy),
      mv_direction = ''right'', mv_isMoving = True, mv_seq = None\<rparr>"


section \<open>The registries stay consistent\<close>

lemma generatePlayerId_nonempty: "generatePlayerId e \<noteq> []"
  by (simp add: generatePlayerId_def)

lemma set_update_subset: "set (AList.update k v al) \<subseteq> insert (k, v) (set al)"
  by (induction al) auto

lemma in_set_updateD: "x \<in> set (AList.update k v al) \<Longrightarrow> x = (k, v) \<or> x \<in> set al"
  using set_update_subset by fastforce

lemma in_set_deleteD: "x \<in> set (AList.delete k al) \<Longrightarrow> x \<in> set al"
  by (auto simp: AList.delete_eq)

lemma distinct_enqueue: "distinct (map fst q) \<Longrightarrow> distinct (map fst (enqueue m q c))"
  by (simp add: enqueue_def distinct_update)

lemma distinct_foldl_enqueue:
  "distinct (map fst q) \<Longrightarrow> distinct (map fst (foldl (enqueue m) q cs))"
  by (induction cs arbitrary: q) (simp_all add: distinct_enqueue)

lemma broadcast_frame [simp]:
  "players (broadcast m x s) = players s"
  "wsToPlayerId (broadcast m x s) = wsToPlayerId s"
  "lastUpdateTime (broadcast m x s) = lastUpdateTime s"
  "playerId (broadcast m x s) = playerId s"
  "accepted (broadcast m x s) = accepted s"
  "clients (broadcast m x s) = clients s"
  "readyState (broadcast m x s) = readyState s"
  by (simp_all add: broadcast_def)

lemma broadcast_queue_distinct:
  "distinct (map fst (movementUpdates s)) \<Longrightarrow> distinct (map fst (movementUpdates (broadcast m x s)))"
  by (simp add: broadcast_def distinct_foldl_enqueue)

lemma wf_broadcast: "wf s \<Longrightarrow> wf (broadcast m x s)"
  unfolding wf_def using broadcast_queue_distinct by simp

lemma wf_init: "wf init"
  by (simp add: wf_def init_def)


lemma join_fields:
  "playerId (on_player_join ws e mp s) =
     (if truthy (playerId s ws) then playerId s
      else (playerId s)(ws \<mapsto> generatePlayerId e))"
  "wsToPlayerId (on_player_join ws e mp s) =
     (if truthy (playerId s ws) then wsToPlayerId s
      else (wsToPlayerId s)(ws \<mapsto> generatePlayerId e))"
  "lastUpdateTime (on_player_join ws e mp s) = lastUpdateTime s"
  "accepted (on_player_join ws e mp s) = accepted s"
  "clients (on_player_join ws e mp s) = clients s"
  "readyState (on_player_join ws e mp s) = readyState s"
  "movementUpdates (on_player_join ws e mp s) = movementUpdates s"
  "broadcastTimer (on_player_join ws e mp s) = broadcastTimer s"
  by (auto simp: on_player_join_def Let_def truthy_def str_or_def broadcast_def
      split: option.splits)

lemma join_players:
  "players (on_player_join ws e (Some r) s) =
     AList.update (str_or (playerId s ws) (generatePlayerId e))
       (playerData (str_or (playerId s ws) (generatePlayerId e)) r) (players s)"
  "players (on_player_join ws e None s) = players s"
  by (auto simp: on_player_join_def Let_def)

lemma id_playerData [simp]: "id' (playerData i r) = i"
  by (simp add: playerData_def)

lemma wf_join: "wf s \<Longrightarrow> ws \<in> set (clients s) \<Longrightarrow> wf (on_player_join ws e mp s)"
  unfolding wf_def
  apply (simp only: join_fields)
  apply (cases mp)
   apply (simp_all only: join_players)
  using generatePlayerId_nonempty
   apply (auto simp: truthy_def split: option.splits dest!: in_set_updateD)
  done

lemma move_fields:
  "playerId (on_player_move ws e m s) = playerId s"
  "wsToPlayerId (on_player_move ws e m s) = wsToPlayerId s"
  "accepted (on_player_move ws e m s) = accepted s"
  "clients (on_player_move ws e m s) = clients s"
  "readyState (on_player_move ws e m s) = readyState s"
  by (auto simp: on_player_move_def Let_def split: option.splits)

lemma chat_fields:
  "playerId (on_chat ws t s) = playerId s"
  "wsToPlayerId (on_chat ws t s) = wsToPlayerId s"
  "lastUpdateTime (on_chat ws t s) = lastUpdateTime s"
  "accepted (on_chat ws t s) = accepted s"
  "clients (on_chat ws t s) = clients s"
  "readyState (on_chat ws t s) = readyState s"
  "players (on_chat ws t s) = players s"
  by (auto simp: on_chat_def Let_def split: option.splits)

lemma update_fields:
  "playerId (on_player_update ws mp s) = playerId s"
  "wsToPlayerId (on_player_update ws mp s) = wsToPlayerId s"
  "lastUpdateTime (on_player_update ws mp s) = lastUpdateTime s"
  "accepted (on_player_update ws mp s) = accepted s"
  "clients (on_player_update ws mp s) = clients s"
  "readyState (on_player_update ws mp s) = readyState s"
  by (auto simp: on_player_update_def Let_def split: option.splits)


lemma move_queue_distinct:
  "distinct (map fst (movementUpdates s)) \<Longrightarrow>
   distinct (map fst (movementUpdates (on_player_move ws e m s)))"
  by (auto simp: on_player_move_def Let_def broadcast_def distinct_foldl_enqueue
      split: option.splits)

lemma move_players_ids:
  assumes "\<forall>kp\<in>set (players s). id' (snd kp) = fst kp"
  shows "\<forall>kp\<in>set (players (on_player_move ws e m s)). id' (snd kp) = fst kp"
proof -
  have "id' (cur\<lparr>pos := p, direction := d, isMoving := b\<rparr>) = i"
    if "map_of (players s) i = Some cur" for i cur p d b
    using that assms by (auto dest!: map_of_SomeD)
  then show ?thesis
    using assms
    by (auto simp: on_player_move_def Let_def split: option.splits if_splits
        dest!: in_set_updateD)
qed

lemma wf_move: "wf s \<Longrightarrow> wf (on_player_move ws e m s)"
  unfolding wf_def
  using move_queue_distinct [of s ws e m] move_players_ids [of s ws e m]
  by (simp add: move_fields)

lemma wf_chat: "wf s \<Longrightarrow> wf (on_chat ws t s)"
  unfolding wf_def
  by (auto simp: on_chat_def broadcast_def split: option.splits)

lemma update_queue:
  "movementUpdates (on_player_update ws mp s) = movementUpdates s"
  by (auto simp: on_player_update_def Let_def broadcast_def split: option.splits)

lemma update_players_ids:
  assumes "\<forall>kp\<in>set (players s). id' (snd kp) = fst kp"
  shows "\<forall>kp\<in>set (players (on_player_update ws mp s)). id' (snd kp) = fst kp"
proof -
  have "id' (cur\<lparr>name := n, color := c, direction := d, isMoving := b\<rparr>) = i"
    if "map_of (players s) i = Some cur" for i cur n c d b
    using that assms by (auto dest!: map_of_SomeD)
  then show ?thesis
    using assms
    by (auto simp: on_player_update_def Let_def split: option.splits if_splits
        dest!: in_set_updateD)
qed

lemma wf_update: "wf s \<Longrightarrow> wf (on_player_update ws mp s)"
  unfolding wf_def
  using update_players_ids [of s ws mp]
  by (simp add: update_fields update_queue)

lemma wf_close: "wf s \<Longrightarrow> wf (on_close ws s)"
  unfolding wf_def
  by (auto simp: on_close_def Let_def broadcast_def js_or_def truthy_def distinct_removeAll
      split: option.splits if_splits dest!: in_set_deleteD)

lemma map_fst_flush_queue: "map fst (map (flush_queue rs) q) = map fst q"
  by (induction q) (auto simp: flush_queue_def)

lemma wf_tick: "wf s \<Longrightarrow> wf (tick s)"
  unfolding wf_def
  by (auto simp: tick_def Let_def map_fst_flush_queue simp del: map_map)

lemma wf_step: "wf s \<Longrightarrow> wf (step s ev)"
proof (cases ev)
  case (Connect ws)
  then show "wf s \<Longrightarrow> wf (step s ev)" by (auto simp: wf_def)
next
  case (Message ws e m)
  then show "wf s \<Longrightarrow> wf (step s ev)"
    by (cases m) (simp_all add: wf_join wf_move wf_chat wf_update)
next
  case (Closing ws)
  then show "wf s \<Longrightarrow> wf (step s ev)" by (auto simp: wf_def)
next
  case (Close ws)
  then show "wf s \<Longrightarrow> wf (step s ev)" by (simp add: wf_close)
next
  case Tick
  then show "wf s \<Longrightarrow> wf (step s ev)" by (simp add: wf_tick)
qed

lemma wf_run: "wf s \<Longrightarrow> wf (run s es)"
  unfolding run_def by (induction es arbitrary: s) (simp_all add: wf_step)

lemma wf_reachable: "wf (run init es)"
  by (simp add: wf_run wf_init)

lemma reachable_id_nonempty: "playerId (run init es) ws = Some A \<Longrightarrow> A \<noteq> []"
  using wf_reachable [of es] by (auto simp: wf_def)

lemma reachable_unassigned:
  "playerId (run init es) ws = None \<Longrightarrow> wsToPlayerId (run init es) ws = None"
  using wf_reachable [of es] by (cases "wsToPlayerId (run init es) ws") (auto simp: wf_def)

text \<open>Equations that evaluate the model on concrete inputs.\<close>

lemmas eval_simps =
  run_def init_def on_player_join_def on_player_move_def on_chat_def on_player_update_def
  on_close_def broadcast_def open_others_def enqueue_def tick_def flush_sends_def flush_queue_def
  playerData_def str_or_def truthy_def js_or_def validPos_def clamp_x_def clamp_y_def
  Math_min_def Math_max_def
  MAP_WIDTH_def MAP_HEIGHT_def UPDATE_RATE_LIMIT_def Let_def
  ex_env_def ex_request_def ex_move_def ex_delta_def generatePlayerId_nonempty
  generatePlayerId_nonempty [THEN not_sym]

lemmas id_simps = generatePlayerId_def show_nat.simps digit_char_def

section \<open>Stored positions and the map bounds\<close>

















section \<open>Movement ingest\<close>

lemma accepted_move_effect:
  assumes "accepts_move s ws e m i"
  obtains cur p where "map_of (players s) i = Some cur" and "validPos cur m = Some p"
    and "players (step s (Message ws e (player_move m))) =
           AList.update i (cur\<lparr>pos := p, direction := mv_direction m, isMoving := mv_isMoving m\<rparr>) (players s)"
    and "lastUpdateTime (step s (Message ws e (player_move m))) = (lastUpdateTime s)(i \<mapsto> now e)"
proof -
  from assms obtain cur where cur: "map_of (players s) i = Some cur"
    by (auto simp: accepts_move_def split: option.splits)
  with assms obtain p where p: "validPos cur m = Some p"
    by (auto simp: accepts_move_def)
  have "players (step s (Message ws e (player_move m))) =
           AList.update i (cur\<lparr>pos := p, direction := mv_direction m, isMoving := mv_isMoving m\<rparr>) (players s)"
    using assms cur p by (auto simp: accepts_move_def on_player_move_def Let_def)
  moreover have "lastUpdateTime (step s (Message ws e (player_move m))) = (lastUpdateTime s)(i \<mapsto> now e)"
    using assms cur p by (auto simp: accepts_move_def on_player_move_def Let_def)
  ultimately show thesis using that cur p by blast
qed







text \<open>
  Claim C2, amended. On a connection whose assigned id is \<open>A\<close>, a \<open>player_move\<close> whose
  \<open>playerId\<close> is a non-empty string other than \<open>A\<close> leaves the whole server state as
  it was: the registry, the rate-limit timestamps, the pending queues and the socket
  writes.
\<close>

theorem foreign_move_dropped:
  assumes "playerId (run init es) ws = Some A"
      and "mv_playerId m = Some p" and "p \<noteq> []" and "p \<noteq> A"
  shows "step (run init es) (Message ws e (player_move m)) = run init es"
proof -
  have "A \<noteq> []" using assms(1) by (rule reachable_id_nonempty)
  then have "js_or (playerId (run init es) ws) (wsToPlayerId (run init es) ws) = Some A"
    using assms(1) by (simp add: js_or_def truthy_def)
  then show ?thesis
    using assms(2-4)
    by (auto simp: on_player_move_def truthy_def split: option.splits)
qed

theorem foreign_move_dropped_witness:
  "playerId (run init [Connect 0, Message 0 (ex_env 1000) (player_join (Some (ex_request ''Ann'' None)))]) 0
     = Some (generatePlayerId (ex_env 1000)) \<and>
   mv_playerId (ex_move (Some ''player_7_a_b'') (5, 5)) = Some ''player_7_a_b'' \<and>
   ''player_7_a_b'' \<noteq> [] \<and>
   ''player_7_a_b'' \<noteq> generatePlayerId (ex_env 1000) \<and>
   step (run init [Connect 0, Message 0 (ex_env 1000) (player_join (Some (ex_request ''Ann'' None)))])
     (Message 0 (ex_env 2000) (player_move (ex_move (Some ''player_7_a_b'') (5, 5)))) =
   run init [Connect 0, Message 0 (ex_env 1000) (player_join (Some (ex_request ''Ann'' None)))]"
proof -
  let ?s = "run init [Connect 0, Message 0 (ex_env 1000) (player_join (Some (ex_request ''Ann'' None)))]"
  have h1: "playerId ?s 0 = Some (generatePlayerId (ex_env 1000))"
    by (simp add: eval_simps)
  have h2: "mv_playerId (ex_move (Some ''player_7_a_b'') (5, 5)) = Some ''player_7_a_b''"
    by (simp add: ex_move_def)
  have h3: "''player_7_a_b'' \<noteq> []" by simp
  have h4: "''player_7_a_b'' \<noteq> generatePlayerId (ex_env 1000)"
    by (simp add: id_simps ex_env_def)
  from h1 h2 h3 h4 foreign_move_dropped [OF h1 h2 h3 h4, of "ex_env 2000"]
  show ?thesis by (intro conjI)
qed

text \<open>
  An empty \<open>playerId\<close> is present and differs from \<open>A\<close>, but it is falsy: the guard
  \<open>msg.playerId && msg.playerId !== movePlayerId\<close> lets the move through.
\<close>

theorem empty_playerId_counterexample:
  "playerId (run init [Connect 0, Message 0 (ex_env 1000) (player_join (Some (ex_request ''Ann'' None)))]) 0
     = Some (generatePlayerId (ex_env 1000)) \<and>
   mv_playerId (ex_move (Some '''') (5, 5)) = Some '''' \<and>
   '''' \<noteq> generatePlayerId (ex_env 1000) \<and>
   players
     (step (run init [Connect 0, Message 0 (ex_env 1000) (player_join (Some (ex_request ''Ann'' None)))])
        (Message 0 (ex_env 2000) (player_move (ex_move (Some '''') (5, 5))))) \<noteq>
   players
     (run init [Connect 0, Message 0 (ex_env 1000) (player_join (Some (ex_request ''Ann'' None)))])"
  by (simp add: eval_simps)

section \<open>Connections without an identity\<close>

text \<open>
  Claim C10. In every reachable state, on a connection that was never assigned an id a
  \<open>player_move\<close>, a \<open>chat\<close> and a \<open>player_update\<close> leave the whole state unchanged
  (registry, queues and socket writes), and the close of the connection changes neither
  the registry nor the queues and writes nothing, so no \<open>player_leave\<close> is broadcast.
\<close>

theorem unregistered_connection_ignored:
  assumes "playerId (run init es) ws = None"
  shows "step (run init es) (Message ws e (player_move m)) = run init es \<and>
         step (run init es) (Message ws e (chat t)) = run init es \<and>
         step (run init es) (Message ws e (player_update mp)) = run init es \<and>
         players (step (run init es) (Close ws)) = players (run init es) \<and>
         sent (step (run init es) (Close ws)) = sent (run init es) \<and>
         movementUpdates (step (run init es) (Close ws)) = movementUpdates (run init es)"
proof -
  have "js_or (playerId (run init es) ws) (wsToPlayerId (run init es) ws) = None"
    using assms reachable_unassigned [OF assms] by (simp add: js_or_def truthy_def)
  then show ?thesis
    by (simp add: on_player_move_def on_chat_def on_player_update_def on_close_def Let_def)
qed


theorem unregistered_connection_ignored_witness:
  "playerId (run init
     [Connect 0, Message 0 (ex_env 1000) (player_join (Some (ex_request ''Ann'' None))), Connect 1]) 1
     = None \<and>
   step (run init
     [Connect 0, Message 0 (ex_env 1000) (player_join (Some (ex_request ''Ann'' None))), Connect 1])
     (Message 1 (ex_env 2000) (chat ''hello'')) =
   run init
     [Connect 0, Message 0 (ex_env 1000) (player_join (Some (ex_request ''Ann'' None))), Connect 1] \<and>
   sent (step (run init
     [Connect 0, Message 0 (ex_env 1000) (player_join (Some (ex_request ''Ann'' None))), Connect 1])
     (Close 1)) =
   sent (run init
     [Connect 0, Message 0 (ex_env 1000) (player_join (Some (ex_request ''Ann'' None))), Connect 1])"
proof -
  have h: "playerId (run init
     [Connect 0, Message 0 (ex_env 1000) (player_join (Some (ex_request ''Ann'' None))), Connect 1]) 1
     = None"
    by (simp add: eval_simps)
  from h unregistered_connection_ignored [OF h, of "ex_env 2000" _ "''hello''"]
  show ?thesis by blast
qed

section \<open>The join protocol\<close>

lemma update_fresh: "k \<notin> fst ` set al \<Longrightarrow> AList.update k v al = al @ [(k, v)]"
  by (induction al) auto











section \<open>The rate limiter\<close>

lemma close_lastUpdateTime: "lastUpdateTime (on_close ws s) = lastUpdateTime s"
  by (auto simp: on_close_def Let_def split: option.splits)

lemma tick_lastUpdateTime: "lastUpdateTime (tick s) = lastUpdateTime s"
  by (simp add: tick_def Let_def)

lemma limited_move_dropped:
  assumes "js_or (playerId s ws) (wsToPlayerId s ws) = Some A"
      and "lastUpdateTime s A = Some t"
      and "int (now e) - int t < UPDATE_RATE_LIMIT"
  shows "on_player_move ws e m s = s"
  using assms by (auto simp: on_player_move_def Let_def split: option.splits)

lemma move_keeps_timestamp:
  assumes "lastUpdateTime s A = Some t" and "int (now e) - int t < UPDATE_RATE_LIMIT"
  shows "lastUpdateTime (on_player_move ws e m s) A = Some t"
proof (cases "js_or (playerId s ws) (wsToPlayerId s ws) = Some A")
  case True
  then show ?thesis using assms by (simp add: limited_move_dropped)
next
  case False
  then show ?thesis
    using assms(1) by (auto simp: on_player_move_def Let_def split: option.splits)
qed

lemma step_keeps_timestamp:
  assumes "lastUpdateTime s A = Some t" and "in_window t ev"
  shows "lastUpdateTime (step s ev) A = Some t"
proof (cases ev)
  case (Message ws e m)
  then show ?thesis
    using assms
    by (cases m) (simp_all add: join_fields chat_fields update_fields move_keeps_timestamp)
next
  case (Close ws)
  then show ?thesis using assms(1) by (simp add: close_lastUpdateTime)
next
  case Tick
  then show ?thesis using assms(1) by (simp add: tick_lastUpdateTime)
qed (use assms(1) in auto)

lemma window_not_applied:
  assumes "lastUpdateTime s A = Some t" and "in_window t ev"
  shows "\<not> applies s ev A"
proof (cases ev)
  case (Message ws e m)
  then show ?thesis
    using assms by (cases m) (auto simp: accepts_move_def)
qed simp_all

lemma window_none_applied:
  "lastUpdateTime s A = Some t \<Longrightarrow> list_all (in_window t) es \<Longrightarrow> moves_applied s es A = 0"
proof (induction es arbitrary: s)
  case Nil
  then show ?case by simp
next
  case (Cons ev es)
  then have w: "in_window t ev" and ws: "list_all (in_window t) es" by simp_all
  have "lastUpdateTime (step s ev) A = Some t"
    using Cons.prems(1) w by (rule step_keeps_timestamp)
  then have "moves_applied (step s ev) es A = 0"
    using ws by (rule Cons.IH)
  moreover have "\<not> applies s ev A"
    using Cons.prems(1) w by (rule window_not_applied)
  ultimately show ?case by simp
qed

lemma rejected_move_silent:
  assumes "\<forall>i. \<not> accepts_move s ws e m i"
  shows "players (step s (Message ws e (player_move m))) = players s \<and>
         movementUpdates (step s (Message ws e (player_move m))) = movementUpdates s \<and>
         sent (step s (Message ws e (player_move m))) = sent s"
proof (cases "ws \<in> set (clients s)")
  case False
  then show ?thesis by simp
next
  case True
  show ?thesis
  proof (cases "js_or (playerId s ws) (wsToPlayerId s ws)")
    case None
    then show ?thesis by (simp add: on_player_move_def)
  next
    case (Some i)
    have "\<not> accepts_move s ws e m i" using assms by simp
    then show ?thesis
      using True Some
      by (auto simp: on_player_move_def accepts_move_def Let_def split: option.splits)
  qed
qed

text \<open>
  Claim C6. Once a \<open>player_move\<close> of player \<open>A\<close> was accepted at time \<open>now e\<close>, in
  every continuation whose movement messages all arrive less than 16 ms after it, the
  first move is the only accepted move of \<open>A\<close>, however many are sent and whatever
  other events come between. A move of \<open>A\<close> that arrives less than 16 ms after the
  time recorded for \<open>A\<close> is discarded without a trace: the state after it, with the
  registry, the pending queues and the socket writes, is the state before. A move that
  is not accepted for any player changes neither the registry nor the queues and writes
  nothing.
\<close>

theorem rate_limit_window:
  "(accepts_move s ws e m A \<and> list_all (in_window (now e)) es \<longrightarrow>
      moves_applied s (Message ws e (player_move m) # es) A = 1) \<and>
   (js_or (playerId s ws) (wsToPlayerId s ws) = Some A \<and> lastUpdateTime s A = Some t \<and>
    int (now e) - int t < UPDATE_RATE_LIMIT \<longrightarrow>
      step s (Message ws e (player_move m)) = s) \<and>
   ((\<forall>i. \<not> accepts_move s ws e m i) \<longrightarrow>
      players (step s (Message ws e (player_move m))) = players s \<and>
      movementUpdates (step s (Message ws e (player_move m))) = movementUpdates s \<and>
      sent (step s (Message ws e (player_move m))) = sent s)"
proof (intro conjI impI)
  assume a: "accepts_move s ws e m A \<and> list_all (in_window (now e)) es"
  then have acc: "accepts_move s ws e m A" and w: "list_all (in_window (now e)) es"
    by simp_all
  from acc have "lastUpdateTime (step s (Message ws e (player_move m))) = (lastUpdateTime s)(A \<mapsto> now e)"
    by (rule accepted_move_effect)
  then have "lastUpdateTime (step s (Message ws e (player_move m))) A = Some (now e)"
    by simp
  then have "moves_applied (step s (Message ws e (player_move m))) es A = 0"
    using w by (rule window_none_applied)
  then show "moves_applied s (Message ws e (player_move m) # es) A = 1"
    using acc by simp
next
  assume "js_or (playerId s ws) (wsToPlayerId s ws) = Some A \<and> lastUpdateTime s A = Some t \<and>
    int (now e) - int t < UPDATE_RATE_LIMIT"
  then show "step s (Message ws e (player_move m)) = s"
    by (simp add: limited_move_dropped)
next
  assume r: "\<forall>i. \<not> accepts_move s ws e m i"
  show "players (step s (Message ws e (player_move m))) = players s"
    using rejected_move_silent [OF r] by (rule conjunct1)
  show "movementUpdates (step s (Message ws e (player_move m))) = movementUpdates s"
    using rejected_move_silent [OF r] by simp
  show "sent (step s (Message ws e (player_move m))) = sent s"
    using rejected_move_silent [OF r] by simp
qed

theorem rate_limit_window_witness:
  "accepts_move
     (run init [Connect 0, Connect 1,
        Message 0 (ex_env 1000) (player_join (Some (ex_request ''Ann'' None)))])
     0 (ex_env 2000) (ex_move None (10, 10)) (generatePlayerId (ex_env 1000)) \<and>
   list_all (in_window (now (ex_env 2000)))
     [Message 0 (ex_env 2003) (player_move (ex_move None (20, 20))), Tick,
      Message 0 (ex_env 2015) (player_move (ex_delta 1 1))] \<and>
   moves_applied
     (run init [Connect 0, Connect 1,
        Message 0 (ex_env 1000) (player_join (Some (ex_request ''Ann'' None)))])
     (Message 0 (ex_env 2000) (player_move (ex_move None (10, 10))) #
      [Message 0 (ex_env 2003) (player_move (ex_move None (20, 20))), Tick,
       Message 0 (ex_env 2015) (player_move (ex_delta 1 1))])
     (generatePlayerId (ex_env 1000)) = 1 \<and>
   js_or
     (playerId (run init [Connect 0, Connect 1,
        Message 0 (ex_env 1000) (player_join (Some (ex_request ''Ann'' None))),
        Message 0 (ex_env 2000) (player_move (ex_move None (10, 10)))]) 0)
     (wsToPlayerId (run init [Connect 0, Connect 1,
        Message 0 (ex_env 1000) (player_join (Some (ex_request ''Ann'' None))),
        Message 0 (ex_env 2000) (player_move (ex_move None (10, 10)))]) 0)
     = Some (generatePlayerId (ex_env 1000)) \<and>
   lastUpdateTime (run init [Connect 0, Connect 1,
        Message 0 (ex_env 1000) (player_join (Some (ex_request ''Ann'' None))),
        Message 0 (ex_env 2000) (player_move (ex_move None (10, 10)))])
     (generatePlayerId (ex_env 1000)) = Some 2000 \<and>
   int (now (ex_env 2015)) - int 2000 < UPDATE_RATE_LIMIT \<and>
   step (run init [Connect 0, Connect 1,
        Message 0 (ex_env 1000) (player_join (Some (ex_request ''Ann'' None))),
        Message 0 (ex_env 2000) (player_move (ex_move None (10, 10)))])
     (Message 0 (ex_env 2015) (player_move (ex_move None (20, 20)))) =
   run init [Connect 0, Connect 1,
        Message 0 (ex_env 1000) (player_join (Some (ex_request ''Ann'' None))),
        Message 0 (ex_env 2000) (player_move (ex_move None (10, 10)))] \<and>
   (\<forall>i. \<not> accepts_move
      (run init [Connect 0, Connect 1,
        Message 0 (ex_env 1000) (player_join (Some (ex_request ''Ann'' None))),
        Message 0 (ex_env 2000) (player_move (ex_move None (10, 10)))])
      0 (ex_env 2015) (ex_move None (20, 20)) i) \<and>
   players (step (run init [Connect 0, Connect 1,
        Message 0 (ex_env 1000) (player_join (Some (ex_request ''Ann'' None))),
        Message 0 (ex_env 2000) (player_move (ex_move None (10, 10)))])
     (Message 0 (ex_env 2015) (player_move (ex_move None (20, 20))))) =
   players (run init [Connect 0, Connect 1,
        Message 0 (ex_env 1000) (player_join (Some (ex_request ''Ann'' None))),
        Message 0 (ex_env 2000) (player_move (ex_move None (10, 10)))])"
proof -
  let ?s0 = "run init [Connect 0, Connect 1,
        Message 0 (ex_env 1000) (player_join (Some (ex_request ''Ann'' None)))]"
  let ?s1 = "run init [Connect 0, Connect 1,
        Message 0 (ex_env 1000) (player_join (Some (ex_request ''Ann'' None))),
        Message 0 (ex_env 2000) (player_move (ex_move None (10, 10)))]"
  let ?es = "[Message 0 (ex_env 2003) (player_move (ex_move None (20, 20))), Tick,
      Message 0 (ex_env 2015) (player_move (ex_delta 1 1))]"
  have h1: "accepts_move ?s0 0 (ex_env 2000) (ex_move None (10, 10)) (generatePlayerId (ex_env 1000))"
    by (simp add: eval_simps accepts_move_def)
  have h2: "list_all (in_window (now (ex_env 2000))) ?es"
    by (simp add: ex_env_def UPDATE_RATE_LIMIT_def)
  have h3: "js_or (playerId ?s1 0) (wsToPlayerId ?s1 0) = Some (generatePlayerId (ex_env 1000))"
    by (simp add: eval_simps)
  have h4: "lastUpdateTime ?s1 (generatePlayerId (ex_env 1000)) = Some 2000"
    by (simp add: eval_simps)
  have h5: "int (now (ex_env 2015)) - int 2000 < UPDATE_RATE_LIMIT"
    by (simp add: ex_env_def UPDATE_RATE_LIMIT_def)
  have c1: "moves_applied ?s0 (Message 0 (ex_env 2000) (player_move (ex_move None (10, 10))) # ?es)
      (generatePlayerId (ex_env 1000)) = 1"
    using rate_limit_window [of ?s0 0 "ex_env 2000" "ex_move None (10, 10)"
        "generatePlayerId (ex_env 1000)" ?es] h1 h2
    by blast
  have c2: "step ?s1 (Message 0 (ex_env 2015) (player_move (ex_move None (20, 20)))) = ?s1"
    using rate_limit_window [of ?s1 0 "ex_env 2015" "ex_move None (20, 20)"
        "generatePlayerId (ex_env 1000)" "[]" 2000] h3 h4 h5
    by blast
  have h6: "\<forall>i. \<not> accepts_move ?s1 0 (ex_env 2015) (ex_move None (20, 20)) i"
    by (simp add: eval_simps accepts_move_def)
  have c3: "players (step ?s1 (Message 0 (ex_env 2015) (player_move (ex_move None (20, 20))))) =
      players ?s1"
    using rate_limit_window [of ?s1 0 "ex_env 2015" "ex_move None (20, 20)"
        "generatePlayerId (ex_env 1000)" "[]" 2000] h6
    by blast
  from h1 h2 c1 h3 h4 h5 c2 h6 c3 show ?thesis by (intro conjI)
qed

section \<open>The broadcast batcher\<close>

lemma map_of_enqueue:
  "map_of (enqueue m q c) =
     (map_of q)(c \<mapsto> (case map_of q c of None \<Rightarrow> [] | Some updates \<Rightarrow> updates) @ [m])"
  by (simp add: enqueue_def update_conv')

lemma map_of_foldl_enqueue:
  "distinct cs \<Longrightarrow>
   map_of (foldl (enqueue m) q cs) c =
     (if c \<in> set cs then Some ((case map_of q c of None \<Rightarrow> [] | Some updates \<Rightarrow> updates) @ [m])
      else map_of q c)"
proof (induction cs arbitrary: q)
  case Nil
  then show ?case by simp
next
  case (Cons c' cs)
  then show ?case by (auto simp: map_of_enqueue)
qed

lemma flush_sends_fst: "w \<in> set (flush_sends rs (c, us)) \<Longrightarrow> fst w = c"
  by (auto simp: flush_sends_def split: if_splits list.splits)

lemma filter_flush_same: "filter (\<lambda>w. fst w = c) (flush_sends rs (c, us)) = flush_sends rs (c, us)"
  by (rule filter_True) (auto dest: flush_sends_fst)

lemma filter_flush_other: "c' \<noteq> c \<Longrightarrow> filter (\<lambda>w. fst w = c) (flush_sends rs (c', us)) = []"
  by (rule filter_False) (auto dest: flush_sends_fst)

lemma filter_flush_absent:
  "c \<notin> fst ` set q \<Longrightarrow> filter (\<lambda>w. fst w = c) (concat (map (flush_sends rs) q)) = []"
proof (induction q)
  case Nil
  then show ?case by simp
next
  case (Cons entry q)
  obtain c' us where entry: "entry = (c', us)" by (cases entry)
  with Cons show ?case by (simp add: filter_flush_other)
qed

lemma filter_flush:
  "distinct (map fst q) \<Longrightarrow>
   filter (\<lambda>w. fst w = c) (concat (map (flush_sends rs) q)) =
     (case map_of q c of None \<Rightarrow> [] | Some us \<Rightarrow> flush_sends rs (c, us))"
proof (induction q)
  case Nil
  then show ?case by simp
next
  case (Cons entry q)
  obtain c' us where entry: "entry = (c', us)" by (cases entry)
  show ?case
  proof (cases "c' = c")
    case True
    then have "c \<notin> fst ` set q" using Cons.prems entry by simp
    then show ?thesis
      using True entry by (simp add: filter_flush_same filter_flush_absent)
  next
    case False
    then show ?thesis
      using Cons entry by (simp add: filter_flush_other)
  qed
qed

lemma flush_queue_pair:
  "flush_queue rs (c, us) = (c, if rs c = OPEN \<and> us \<noteq> [] then [] else us)"
  by (simp add: flush_queue_def)

lemma map_of_flush_queue:
  "map_of (map (flush_queue rs) q) c =
     map_option (\<lambda>us. if rs c = OPEN \<and> us \<noteq> [] then [] else us) (map_of q c)"
proof (induction q)
  case Nil
  then show ?case by simp
next
  case (Cons entry q)
  obtain c' us where entry: "entry = (c', us)" by (cases entry)
  show ?case
  proof (cases "c' = c")
    case True
    then show ?thesis unfolding entry by (simp add: flush_queue_pair)
  next
    case False
    then show ?thesis unfolding entry using Cons.IH by (simp add: flush_queue_pair)
  qed
qed

lemma reachable_queue_distinct: "distinct (map fst (movementUpdates (run init es)))"
  using wf_reachable [of es] by (simp add: wf_def)

lemma reachable_clients_distinct: "distinct (clients (run init es))"
  using wf_reachable [of es] by (simp add: wf_def)

lemma tick_writes:
  assumes "distinct (map fst (movementUpdates s))" and "broadcastTimer s" and "readyState s c = OPEN"
  shows "writes_to c s (tick s) =
           (case pending s c of [] \<Rightarrow> [] | [u] \<Rightarrow> [(c, u)] | u # v # us \<Rightarrow> [(c, batch (u # v # us))])"
    and "pending (tick s) c = []"
proof -
  have "writes_to c s (tick s) =
          (case map_of (movementUpdates s) c of None \<Rightarrow> [] | Some us \<Rightarrow> flush_sends (readyState s) (c, us))"
    using assms(1,2) by (simp add: writes_to_def tick_def Let_def filter_flush)
  then show "writes_to c s (tick s) =
           (case pending s c of [] \<Rightarrow> [] | [u] \<Rightarrow> [(c, u)] | u # v # us \<Rightarrow> [(c, batch (u # v # us))])"
    using assms(3) by (auto simp: pending_def flush_sends_def split: option.splits list.splits)
  show "pending (tick s) c = []"
    using assms(2,3)
    by (auto simp: pending_def tick_def Let_def map_of_flush_queue split: option.splits)
qed

text \<open>
  Claim C7. In every reachable state: a movement message that is broadcast is appended to
  the pending queue of each open destination, behind what was pending, nothing is
  written, and the timer runs. When the timer fires, an open client with exactly one
  pending message is sent that message as it is, one with several is sent one
  \<open>batch\<close> envelope holding them in arrival order, one with none is sent nothing, and
  its queue is empty afterwards. A message of another kind (join, leave, chat, profile
  update) is written at once, one write per open destination in the order of the calls,
  and does not touch the queues. The timer event stands for the 16 ms interval, whose
  length is not part of the model.
\<close>

theorem batcher_flush_and_bypass:
  "(is_player_move message \<and> client \<in> set (open_others (run init es) excludeWs) \<longrightarrow>
      pending (broadcast message excludeWs (run init es)) client =
        pending (run init es) client @ [message] \<and>
      sent (broadcast message excludeWs (run init es)) = sent (run init es) \<and>
      broadcastTimer (broadcast message excludeWs (run init es))) \<and>
   (broadcastTimer (run init es) \<and> readyState (run init es) client = OPEN \<longrightarrow>
      writes_to client (run init es) (step (run init es) Tick) =
        (case pending (run init es) client of
           [] \<Rightarrow> []
         | [u] \<Rightarrow> [(client, u)]
         | u # v # us \<Rightarrow> [(client, batch (u # v # us))]) \<and>
      pending (step (run init es) Tick) client = []) \<and>
   (\<not> is_player_move message \<longrightarrow>
      sent (broadcast message excludeWs (run init es)) =
        sent (run init es) @ map (\<lambda>client. (client, message)) (open_others (run init es) excludeWs) \<and>
      movementUpdates (broadcast message excludeWs (run init es)) = movementUpdates (run init es)) \<and>
   \<not> is_player_move (player_join_out p) \<and> \<not> is_player_move (player_leave i) \<and>
   \<not> is_player_move (chat_out i n t) \<and> \<not> is_player_move (player_update_out p)"
proof -
  let ?s = "run init es"
  have d: "distinct (open_others ?s excludeWs)"
    using reachable_clients_distinct [of es] by (simp add: open_others_def)
  have a: "pending (broadcast message excludeWs ?s) client = pending ?s client @ [message] \<and>
      sent (broadcast message excludeWs ?s) = sent ?s \<and>
      broadcastTimer (broadcast message excludeWs ?s)"
    if "is_player_move message \<and> client \<in> set (open_others ?s excludeWs)"
    using that by (simp add: broadcast_def pending_def map_of_foldl_enqueue [OF d])
  have b: "writes_to client ?s (step ?s Tick) =
        (case pending ?s client of
           [] \<Rightarrow> []
         | [u] \<Rightarrow> [(client, u)]
         | u # v # us \<Rightarrow> [(client, batch (u # v # us))]) \<and>
      pending (step ?s Tick) client = []"
    if "broadcastTimer ?s \<and> readyState ?s client = OPEN"
  proof -
    from that have t: "broadcastTimer ?s" and r: "readyState ?s client = OPEN" by simp_all
    show ?thesis
      unfolding step.simps
      using tick_writes [OF reachable_queue_distinct t r] by (rule conjI)
  qed
  have c: "sent (broadcast message excludeWs ?s) =
        sent ?s @ map (\<lambda>client. (client, message)) (open_others ?s excludeWs) \<and>
      movementUpdates (broadcast message excludeWs ?s) = movementUpdates ?s"
    if "\<not> is_player_move message"
    using that by (simp add: broadcast_def)
  have k: "\<not> is_player_move (player_join_out p) \<and> \<not> is_player_move (player_leave i) \<and>
   \<not> is_player_move (chat_out i n t) \<and> \<not> is_player_move (player_update_out p)"
    by simp
  show ?thesis
    apply (rule conjI)
     apply (rule impI)
     apply (erule a)
    apply (rule conjI)
     apply (rule impI)
     apply (erule b)
    apply (rule conjI)
     apply (rule impI)
     apply (erule c)
    apply (rule k)
    done
qed

theorem batcher_flush_and_bypass_witness:
  "broadcastTimer (run init
     [Connect 0, Connect 1, Message 0 (ex_env 1000) (player_join (Some (ex_request ''Ann'' None))),
      Message 0 (ex_env 2000) (player_move (ex_move None (10, 10))), Connect 2,
      Message 0 (ex_env 2020) (player_move (ex_move None (20, 20)))]) \<and>
   readyState (run init
     [Connect 0, Connect 1, Message 0 (ex_env 1000) (player_join (Some (ex_request ''Ann'' None))),
      Message 0 (ex_env 2000) (player_move (ex_move None (10, 10))), Connect 2,
      Message 0 (ex_env 2020) (player_move (ex_move None (20, 20)))]) 2 = OPEN \<and>
   readyState (run init
     [Connect 0, Connect 1, Message 0 (ex_env 1000) (player_join (Some (ex_request ''Ann'' None))),
      Message 0 (ex_env 2000) (player_move (ex_move None (10, 10))), Connect 2,
      Message 0 (ex_env 2020) (player_move (ex_move None (20, 20)))]) 1 = OPEN \<and>
   writes_to 2
     (run init
       [Connect 0, Connect 1, Message 0 (ex_env 1000) (player_join (Some (ex_request ''Ann'' None))),
        Message 0 (ex_env 2000) (player_move (ex_move None (10, 10))), Connect 2,
        Message 0 (ex_env 2020) (player_move (ex_move None (20, 20)))])
     (step (run init
       [Connect 0, Connect 1, Message 0 (ex_env 1000) (player_join (Some (ex_request ''Ann'' None))),
        Message 0 (ex_env 2000) (player_move (ex_move None (10, 10))), Connect 2,
        Message 0 (ex_env 2020) (player_move (ex_move None (20, 20)))]) Tick) =
     [(2, player_move_out (generatePlayerId (ex_env 1000)) (Num 20, Num 20) ''right'' True (Some 1) 2020)] \<and>
   writes_to 1
     (run init
       [Connect 0, Connect 1, Message 0 (ex_env 1000) (player_join (Some (ex_request ''Ann'' None))),
        Message 0 (ex_env 2000) (player_move (ex_move None (10, 10))), Connect 2,
        Message 0 (ex_env 2020) (player_move (ex_move None (20, 20)))])
     (step (run init
       [Connect 0, Connect 1, Message 0 (ex_env 1000) (player_join (Some (ex_request ''Ann'' None))),
        Message 0 (ex_env 2000) (player_move (ex_move None (10, 10))), Connect 2,
        Message 0 (ex_env 2020) (player_move (ex_move None (20, 20)))]) Tick) =
     [(1, batch
            [player_move_out (generatePlayerId (ex_env 1000)) (Num 10, Num 10) ''right'' True (Some 1) 2000,
             player_move_out (generatePlayerId (ex_env 1000)) (Num 20, Num 20) ''right'' True (Some 1) 2020])] \<and>
   is_player_move (player_move_out ''p'' (Num 1, Num 2) ''left'' False None 2040) \<and>
   1 \<in> set (open_others (run init
       [Connect 0, Connect 1, Message 0 (ex_env 1000) (player_join (Some (ex_request ''Ann'' None))),
        Message 0 (ex_env 2000) (player_move (ex_move None (10, 10))), Connect 2,
        Message 0 (ex_env 2020) (player_move (ex_move None (20, 20)))]) 0) \<and>
   pending (broadcast (player_move_out ''p'' (Num 1, Num 2) ''left'' False None 2040) 0 (run init
       [Connect 0, Connect 1, Message 0 (ex_env 1000) (player_join (Some (ex_request ''Ann'' None))),
        Message 0 (ex_env 2000) (player_move (ex_move None (10, 10))), Connect 2,
        Message 0 (ex_env 2020) (player_move (ex_move None (20, 20)))])) 1 =
     [player_move_out (generatePlayerId (ex_env 1000)) (Num 10, Num 10) ''right'' True (Some 1) 2000,
      player_move_out (generatePlayerId (ex_env 1000)) (Num 20, Num 20) ''right'' True (Some 1) 2020,
      player_move_out ''p'' (Num 1, Num 2) ''left'' False None 2040] \<and>
   \<not> is_player_move (player_leave ''p'') \<and>
   sent (broadcast (player_leave ''p'') 0 (run init
       [Connect 0, Connect 1, Message 0 (ex_env 1000) (player_join (Some (ex_request ''Ann'' None))),
        Message 0 (ex_env 2000) (player_move (ex_move None (10, 10))), Connect 2,
        Message 0 (ex_env 2020) (player_move (ex_move None (20, 20)))])) =
   sent (run init
       [Connect 0, Connect 1, Message 0 (ex_env 1000) (player_join (Some (ex_request ''Ann'' None))),
        Message 0 (ex_env 2000) (player_move (ex_move None (10, 10))), Connect 2,
        Message 0 (ex_env 2020) (player_move (ex_move None (20, 20)))]) @
     [(1, player_leave ''p''), (2, player_leave ''p'')]"
proof -
  let ?es = "[Connect 0, Connect 1, Message 0 (ex_env 1000) (player_join (Some (ex_request ''Ann'' None))),
      Message 0 (ex_env 2000) (player_move (ex_move None (10, 10))), Connect 2,
      Message 0 (ex_env 2020) (player_move (ex_move None (20, 20)))]"
  let ?mA = "player_move_out (generatePlayerId (ex_env 1000)) (Num 10, Num 10) ''right'' True (Some 1) 2000"
  let ?mB = "player_move_out (generatePlayerId (ex_env 1000)) (Num 20, Num 20) ''right'' True (Some 1) 2020"
  let ?mC = "player_move_out ''p'' (Num 1, Num 2) ''left'' False None 2040"
  have t: "broadcastTimer (run init ?es)"
    by (simp add: eval_simps)
  have r2: "readyState (run init ?es) 2 = OPEN"
    by (simp add: eval_simps)
  have r1: "readyState (run init ?es) 1 = OPEN"
    by (simp add: eval_simps)
  have p2: "pending (run init ?es) 2 = [?mB]"
    by (simp add: eval_simps pending_def)
  have p1: "pending (run init ?es) 1 = [?mA, ?mB]"
    by (simp add: eval_simps pending_def)
  have oo: "open_others (run init ?es) 0 = [1, 2]"
    by (simp add: eval_simps)
  have m: "is_player_move ?mC" by simp
  have o1: "1 \<in> set (open_others (run init ?es) 0)"
    unfolding oo by simp
  have l: "\<not> is_player_move (player_leave ''p'')" by simp
  have w2: "writes_to 2 (run init ?es) (step (run init ?es) Tick) = [(2, ?mB)]"
    using batcher_flush_and_bypass [of ?mC 2 ?es 0] t r2 unfolding p2 by simp
  have w1: "writes_to 1 (run init ?es) (step (run init ?es) Tick) = [(1, batch [?mA, ?mB])]"
    using batcher_flush_and_bypass [of ?mC 1 ?es 0] t r1 unfolding p1 by simp
  have q1: "pending (broadcast ?mC 0 (run init ?es)) 1 = [?mA, ?mB, ?mC]"
    using batcher_flush_and_bypass [of ?mC 1 ?es 0] m o1 unfolding p1 by simp
  have s1: "sent (broadcast (player_leave ''p'') 0 (run init ?es)) =
      sent (run init ?es) @ [(1, player_leave ''p''), (2, player_leave ''p'')]"
    using batcher_flush_and_bypass [of "player_leave ''p''" 1 ?es 0] l unfolding oo by simp
  from t r2 r1 w2 w1 m o1 q1 l s1 show ?thesis by (intro conjI)
qed

section \<open>Identities\<close>

lemma of_char_digit_char: "d < 10 \<Longrightarrow> of_char (digit_char d) = (48 + d :: nat)"
proof -
  assume "d < 10"
  then have "d = 0 \<or> d = 1 \<or> d = 2 \<or> d = 3 \<or> d = 4 \<or> d = 5 \<or> d = 6 \<or> d = 7 \<or> d = 8 \<or> d = 9"
    by arith
  then show ?thesis
    by (elim disjE) (simp_all add: digit_char_def)
qed

lemma digit_char_inj:
  assumes "a < 10" and "b < 10" and "digit_char a = digit_char b"
  shows "a = b"
proof -
  have "(of_char (digit_char a) :: nat) = of_char (digit_char b)"
    by (simp only: assms(3))
  then have "48 + a = 48 + b"
    by (simp only: of_char_digit_char [OF assms(1)] of_char_digit_char [OF assms(2)])
  then show ?thesis by arith
qed

lemma digit_char_not_underscore: "digit_char d \<noteq> CHR ''_''"
  by (simp add: digit_char_def)

lemma show_nat_nonempty: "show_nat n \<noteq> []"
  by (subst show_nat.simps) simp

lemma show_nat_no_underscore: "CHR ''_'' \<notin> set (show_nat n)"
proof (induction n rule: show_nat.induct)
  case (1 n)
  show ?case
  proof (cases "n < 10")
    case True
    then show ?thesis
      using digit_char_not_underscore [of n] by (subst show_nat.simps) auto
  next
    case False
    then show ?thesis
      using 1 digit_char_not_underscore [of "n mod 10"] by (subst show_nat.simps) auto
  qed
qed

lemma show_nat_inj: "show_nat a = show_nat b \<Longrightarrow> a = b"
proof (induction a arbitrary: b rule: show_nat.induct)
  case (1 a)
  show ?case
  proof (cases "a < 10")
    case a: True
    show ?thesis
    proof (cases "b < 10")
      case True
      then show ?thesis
        using a "1.prems" digit_char_inj [of a b]
        by (simp add: show_nat.simps [of a] show_nat.simps [of b])
    next
      case False
      then show ?thesis
        using a "1.prems" show_nat_nonempty [of "b div 10"]
        by (simp add: show_nat.simps [of a] show_nat.simps [of b])
    qed
  next
    case a: False
    show ?thesis
    proof (cases "b < 10")
      case True
      then show ?thesis
        using a "1.prems" show_nat_nonempty [of "a div 10"]
        by (simp add: show_nat.simps [of a] show_nat.simps [of b])
    next
      case False
      then have eq: "show_nat (a div 10) = show_nat (b div 10)"
        and d: "digit_char (a mod 10) = digit_char (b mod 10)"
        using a "1.prems" by (simp_all add: show_nat.simps [of a] show_nat.simps [of b])
      have "a div 10 = b div 10"
        using a eq by (rule "1.IH")
      moreover have "a mod 10 = b mod 10"
        using d by (intro digit_char_inj) simp_all
      ultimately show ?thesis
        by (metis div_mult_mod_eq)
    qed
  qed
qed

lemma base36_no_underscore:
  assumes "base36 r"
  shows "CHR ''_'' \<notin> set r"
proof -
  have "set r \<subseteq> set ''0123456789abcdefghijklmnopqrstuvwxyz''"
    using assms unfolding base36_def by (rule conjunct2)
  moreover have "CHR ''_'' \<notin> set ''0123456789abcdefghijklmnopqrstuvwxyz''"
    by simp
  ultimately show ?thesis by (rule contra_subsetD)
qed

lemma split_at_first:
  "c \<notin> set xs \<Longrightarrow> c \<notin> set ys \<Longrightarrow> xs @ c # r = ys @ c # r' \<Longrightarrow> xs = ys \<and> r = r'"
proof (induction xs arbitrary: ys)
  case Nil
  then show ?case by (cases ys) simp_all
next
  case (Cons x xs)
  show ?case
  proof (cases ys)
    case Nil
    then show ?thesis using Cons.prems by simp
  next
    case (Cons y ys')
    then have "x = y" and "xs @ c # r = ys' @ c # r'" and "c \<notin> set ys'" and "c \<notin> set xs"
      using Cons.prems by simp_all
    then show ?thesis
      using Cons.IH [of ys'] Cons by simp
  qed
qed

lemma generatePlayerId_inj:
  assumes "generatePlayerId e = generatePlayerId e'"
      and "CHR ''_'' \<notin> set (rand1 e)" and "CHR ''_'' \<notin> set (rand1 e')"
  shows "e = e'"
proof -
  have "''player_'' @ (show_nat (now e) @ CHR ''_'' # (rand1 e @ CHR ''_'' # rand2 e)) =
      ''player_'' @ (show_nat (now e') @ CHR ''_'' # (rand1 e' @ CHR ''_'' # rand2 e'))"
    using assms(1) unfolding generatePlayerId_def by (simp only: append_Cons append_Nil)
  then have eq: "show_nat (now e) @ CHR ''_'' # (rand1 e @ CHR ''_'' # rand2 e) =
      show_nat (now e') @ CHR ''_'' # (rand1 e' @ CHR ''_'' # rand2 e')"
    by (simp only: same_append_eq)
  have n: "show_nat (now e) = show_nat (now e') \<and>
      rand1 e @ CHR ''_'' # rand2 e = rand1 e' @ CHR ''_'' # rand2 e'"
    by (rule split_at_first [OF show_nat_no_underscore show_nat_no_underscore eq])
  have r: "rand1 e = rand1 e' \<and> rand2 e = rand2 e'"
    by (rule split_at_first [OF assms(2,3) conjunct2 [OF n]])
  have t: "now e = now e'"
    by (rule show_nat_inj [OF conjunct1 [OF n]])
  show ?thesis
    by (rule env.equality) (simp_all add: t r)
qed

text \<open>
  Claim C8, amended. The ids that successive calls of \<open>generatePlayerId\<close> hand out are
  pairwise distinct whenever no two calls read the same triple of clock value and random
  fragments: the id determines the triple.
\<close>

theorem ids_distinct_for_distinct_draws:
  assumes "distinct es" and "list_all fragments_ok es"
  shows "distinct (map generatePlayerId es)"
proof -
  have "inj_on generatePlayerId (set es)"
  proof (rule inj_onI)
    fix e e' assume "e \<in> set es" "e' \<in> set es" "generatePlayerId e = generatePlayerId e'"
    then show "e = e'"
      using assms(2) generatePlayerId_inj [of e e'] base36_no_underscore
      by (auto simp: list_all_iff fragments_ok_def)
  qed
  then show ?thesis using assms(1) by (simp add: distinct_map)
qed

theorem ids_distinct_for_distinct_draws_witness:
  "distinct [ex_env 1000, ex_env 1001] \<and> list_all fragments_ok [ex_env 1000, ex_env 1001] \<and>
   distinct (map generatePlayerId [ex_env 1000, ex_env 1001])"
proof -
  have h1: "distinct [ex_env 1000, ex_env 1001]"
    by (simp add: ex_env_def)
  have h2: "list_all fragments_ok [ex_env 1000, ex_env 1001]"
    by (simp add: fragments_ok_def base36_def ex_env_def)
  from h1 h2 ids_distinct_for_distinct_draws [OF h1 h2] show ?thesis by (intro conjI)
qed

text \<open>
  The claim as written fails: the generator checks nothing, so two joins that read the
  same clock value and the same fragments are handed the same id.
\<close>

theorem same_draw_counterexample:
  "fragments_ok (ex_env 1000) \<and>
   playerId (run init
     [Connect 0, Connect 1,
      Message 0 (ex_env 1000) (player_join (Some (ex_request ''Ann'' None))),
      Message 1 (ex_env 1000) (player_join (Some (ex_request ''Bob'' None)))]) 0 =
   playerId (run init
     [Connect 0, Connect 1,
      Message 0 (ex_env 1000) (player_join (Some (ex_request ''Ann'' None))),
      Message 1 (ex_env 1000) (player_join (Some (ex_request ''Bob'' None)))]) 1 \<and>
   playerId (run init
     [Connect 0, Connect 1,
      Message 0 (ex_env 1000) (player_join (Some (ex_request ''Ann'' None))),
      Message 1 (ex_env 1000) (player_join (Some (ex_request ''Bob'' None)))]) 1 =
   Some ''player_1000_k3j9x0a1b_q7w5e2r8t'' \<and>
   \<not> distinct (map generatePlayerId [ex_env 1000, ex_env 1000])"
  by (simp add: eval_simps id_simps fragments_ok_def base36_def)

section \<open>Reconnection of the client transport\<close>

lemma attemptReconnect_bound:
  "reconnectAttempts cl \<le> maxReconnectAttempts \<Longrightarrow>
   reconnectAttempts (attemptReconnect cl) \<le> maxReconnectAttempts"
  by (simp add: attemptReconnect_def Let_def)

lemma client_step_bound:
  "reconnectAttempts cl \<le> maxReconnectAttempts \<Longrightarrow>
   reconnectAttempts (client_step cl ev) \<le> maxReconnectAttempts"
  by (cases ev)
    (simp_all add: connect_def onopen_def onclose_def on_timeout_def disconnect_def Let_def
      attemptReconnect_bound)

lemma client_run_snoc: "client_run cl (es @ [ev]) = client_step (client_run cl es) ev"
  by (simp add: client_run_def)

lemma client_run_bound: "reconnectAttempts (client_run client_init es) \<le> maxReconnectAttempts"
proof (induction es rule: rev_induct)
  case Nil
  then show ?case by (simp add: client_run_def client_init_def)
next
  case (snoc ev es)
  then show ?case by (simp add: client_run_snoc client_step_bound)
qed

lemma attemptReconnect_delays: "delays_ok cl \<Longrightarrow> delays_ok (attemptReconnect cl)"
  by (simp add: delays_ok_def attemptReconnect_def Let_def)

lemma delays_ok_ws: "delays_ok (cl\<lparr>ws_c := w\<rparr>) = delays_ok cl"
  by (simp add: delays_ok_def)

lemma client_step_delays: "delays_ok cl \<Longrightarrow> ev \<noteq> OnOpen \<Longrightarrow> delays_ok (client_step cl ev)"
  by (cases ev)
    (simp_all add: connect_def onclose_def on_timeout_def disconnect_def Let_def
      attemptReconnect_delays delays_ok_ws)

lemma client_run_delays: "OnOpen \<notin> set es \<Longrightarrow> delays_ok (client_run client_init es)"
proof (induction es rule: rev_induct)
  case Nil
  then show ?case by (simp add: client_run_def client_init_def delays_ok_def)
next
  case (snoc ev es)
  then have "delays_ok (client_run client_init es)" and "ev \<noteq> OnOpen"
    by auto
  then show ?case by (simp add: client_run_snoc client_step_delays)
qed

text \<open>
  Claim C9. A close with code 1000 schedules no reconnection and leaves the attempt
  counter alone. A close with any other code, while fewer than 5 attempts were made,
  counts one more attempt and schedules \<open>connect\<close> after 1000 ms times the new attempt
  number; once 5 attempts were made it schedules nothing. In every run the counter stays
  at most 5, and as long as no connection has opened the delays scheduled are
  1000, 2000, ... ms, one per attempt: at most five of them.
\<close>

theorem reconnect_policy:
  "timeouts (onclose 1000 cl) = timeouts cl \<and>
   reconnectAttempts (onclose 1000 cl) = reconnectAttempts cl \<and>
   (code \<noteq> 1000 \<and> reconnectAttempts cl < 5 \<longrightarrow>
      timeouts (onclose code cl) = timeouts cl @ [1000 * (reconnectAttempts cl + 1)] \<and>
      reconnectAttempts (onclose code cl) = reconnectAttempts cl + 1) \<and>
   (5 \<le> reconnectAttempts cl \<longrightarrow>
      timeouts (onclose code cl) = timeouts cl \<and>
      reconnectAttempts (onclose code cl) = reconnectAttempts cl) \<and>
   reconnectAttempts (client_run client_init es) \<le> 5 \<and>
   (OnOpen \<notin> set es \<longrightarrow>
      timeouts (client_run client_init es) =
        map (\<lambda>k. 1000 * k) [1..<Suc (reconnectAttempts (client_run client_init es))])"
proof -
  have a: "timeouts (onclose 1000 cl) = timeouts cl \<and>
      reconnectAttempts (onclose 1000 cl) = reconnectAttempts cl"
    by (simp add: onclose_def)
  have b: "code \<noteq> 1000 \<and> reconnectAttempts cl < 5 \<longrightarrow>
      timeouts (onclose code cl) = timeouts cl @ [1000 * (reconnectAttempts cl + 1)] \<and>
      reconnectAttempts (onclose code cl) = reconnectAttempts cl + 1"
    by (simp add: onclose_def attemptReconnect_def Let_def maxReconnectAttempts_def
        reconnectDelay_def)
  have c: "5 \<le> reconnectAttempts cl \<longrightarrow>
      timeouts (onclose code cl) = timeouts cl \<and>
      reconnectAttempts (onclose code cl) = reconnectAttempts cl"
    by (simp add: onclose_def attemptReconnect_def Let_def maxReconnectAttempts_def)
  have d: "reconnectAttempts (client_run client_init es) \<le> 5"
    using client_run_bound [of es] by (simp add: maxReconnectAttempts_def)
  have e: "OnOpen \<notin> set es \<longrightarrow>
      timeouts (client_run client_init es) =
        map (\<lambda>k. 1000 * k) [1..<Suc (reconnectAttempts (client_run client_init es))]"
    using client_run_delays [of es] by (simp add: delays_ok_def reconnectDelay_def)
  from a b c d e show ?thesis by blast
qed

lemmas client_simps =
  client_run_def client_init_def connect_def onopen_def onclose_def on_timeout_def
  disconnect_def attemptReconnect_def maxReconnectAttempts_def reconnectDelay_def Let_def

theorem reconnect_policy_witness:
  "(1006::nat) \<noteq> 1000 \<and> reconnectAttempts client_init < 5 \<and>
   timeouts (onclose 1006 client_init) = [1000] \<and>
   reconnectAttempts (onclose 1006 client_init) = 1 \<and>
   5 \<le> reconnectAttempts
     (client_run client_init [OnClose 1006, OnClose 1006, OnClose 1006, OnClose 1006, OnClose 1006]) \<and>
   timeouts (onclose 1006
     (client_run client_init [OnClose 1006, OnClose 1006, OnClose 1006, OnClose 1006, OnClose 1006])) =
   timeouts
     (client_run client_init [OnClose 1006, OnClose 1006, OnClose 1006, OnClose 1006, OnClose 1006]) \<and>
   OnOpen \<notin> set [CallConnect True, OnClose 1006, Timeout True, OnClose 1006, Timeout False,
      OnClose 1000] \<and>
   timeouts (client_run client_init
     [CallConnect True, OnClose 1006, Timeout True, OnClose 1006, Timeout False, OnClose 1000]) =
   [1000, 2000, 3000]"
proof -
  let ?five = "client_run client_init [OnClose 1006, OnClose 1006, OnClose 1006, OnClose 1006, OnClose 1006]"
  let ?es = "[CallConnect True, OnClose 1006, Timeout True, OnClose 1006, Timeout False, OnClose 1000]"
  have h1: "(1006::nat) \<noteq> 1000" by simp
  have h2: "reconnectAttempts client_init < 5" by (simp add: client_init_def)
  have h3: "5 \<le> reconnectAttempts ?five" by (simp add: client_simps)
  have h4: "OnOpen \<notin> set ?es" by simp
  have n0: "reconnectAttempts client_init = 0" and t0: "timeouts client_init = []"
    by (simp_all add: client_init_def)
  have n: "reconnectAttempts (client_run client_init ?es) = 3" by (simp add: client_simps)
  have u: "[1..<Suc 3] = [1, 2, 3]" by (simp add: upt_rec)
  have c1: "timeouts (onclose 1006 client_init) = [1000] \<and>
      reconnectAttempts (onclose 1006 client_init) = 1"
    using reconnect_policy [of client_init 1006 "[]"] h1 h2 unfolding n0 t0 by simp
  have c2: "timeouts (onclose 1006 ?five) = timeouts ?five"
    using reconnect_policy [of ?five 1006 "[]"] h3 by blast
  have c3: "timeouts (client_run client_init ?es) = [1000, 2000, 3000]"
    using reconnect_policy [of client_init 1006 ?es] h4 unfolding n u by simp
  from h1 h2 c1 h3 c2 h4 c3 show ?thesis by blast
qed


end
